theory Spec2Isabelle
  imports Complex_Main
begin

section \<open>Strings and regular expressions of the host language\<close>

text \<open>
  A JavaScript string is modelled as a \<^typ>\<open>string\<close>: a list of code units, each below 256.
  A count (an array length, a table entry, a number of matches) is a natural number. The
  other numbers are IEEE doubles; their model is in the section on numbers below.
\<close>

definition isSpace :: "char \<Rightarrow> bool" where
  \<comment> \<open>\<open>\s\<close> and the characters \<open>trim()\<close> strips: TAB, LF, VT, FF, CR, SP, NBSP.\<close>
  "isSpace c \<longleftrightarrow> c \<in> {CHR 0x09, CHR 0x0A, CHR 0x0B, CHR 0x0C, CHR 0x0D, CHR 0x20, CHR 0xA0}"

definition isLower :: "char \<Rightarrow> bool" where
  \<comment> \<open>\<open>[a-z]\<close>\<close>
  "isLower c \<longleftrightarrow> (97::nat) \<le> of_char c \<and> of_char c \<le> (122::nat)"

definition isUpper :: "char \<Rightarrow> bool" where
  \<comment> \<open>\<open>[A-Z]\<close>\<close>
  "isUpper c \<longleftrightarrow> (65::nat) \<le> of_char c \<and> of_char c \<le> (90::nat)"

definition isDigit :: "char \<Rightarrow> bool" where
  \<comment> \<open>\<open>[0-9]\<close>\<close>
  "isDigit c \<longleftrightarrow> (48::nat) \<le> of_char c \<and> of_char c \<le> (57::nat)"

definition isLetter :: "char \<Rightarrow> bool" where
  \<comment> \<open>\<open>[a-zA-Z]\<close>\<close>
  "isLetter c \<longleftrightarrow> isLower c \<or> isUpper c"

definition isWordChar :: "char \<Rightarrow> bool" where
  \<comment> \<open>\<open>\w\<close>, also the class that \<open>\b\<close> looks at: \<open>[A-Za-z0-9_]\<close>\<close>
  "isWordChar c \<longleftrightarrow> isLetter c \<or> isDigit c \<or> c = CHR ''_''"

definition toLowerChar :: "char \<Rightarrow> char" where
  \<comment> \<open>Lower-casing of one code unit, on the ASCII letters. The other code units below 256
      are mapped by \<open>toLowerCase\<close> to code units outside \<open>[a-z]\<close>, and every use below
      discards them or compares them with ASCII letters only.\<close>
  "toLowerChar c = (if isUpper c then char_of ((of_char c :: nat) + 32) else c)"

definition toUpperChar :: "char \<Rightarrow> char" where
  \<comment> \<open>Upper-casing of one code unit, on the ASCII letters (see \<open>toLowerChar\<close>).\<close>
  "toUpperChar c = (if isLower c then char_of ((of_char c :: nat) - 32) else c)"

definition toLowerCase :: "string \<Rightarrow> string" where
  "toLowerCase s = map toLowerChar s"

definition trim :: "string \<Rightarrow> string" where
  "trim s = rev (dropWhile isSpace (rev (dropWhile isSpace s)))"

definition endsWith :: "string \<Rightarrow> string \<Rightarrow> bool" where
  "endsWith s suf \<longleftrightarrow> length suf \<le> length s \<and> drop (length s - length suf) s = suf"

text \<open>
  The regular expressions the program uses are built from character classes, literals,
  \<open>\b\<close>, sequence, alternation and greedy \<open>+\<close> and \<open>*\<close> over a class. Capture groups
  change nothing here: no pattern has a back-reference, and only whole matches are read.
\<close>

datatype regex =
    Class "char \<Rightarrow> bool"
  | Lit bool string
  | WordBoundary
  | Seq regex regex
  | Alt regex regex
  | Plus "char \<Rightarrow> bool"
  | Star "char \<Rightarrow> bool"

definition isWordAt :: "char option \<Rightarrow> bool" where
  "isWordAt p = (case p of None \<Rightarrow> False | Some c \<Rightarrow> isWordChar c)"

definition nextChar :: "string \<Rightarrow> char option" where
  "nextChar s = (case s of [] \<Rightarrow> None | c # _ \<Rightarrow> Some c)"

definition prevAfter :: "char option \<Rightarrow> string \<Rightarrow> nat \<Rightarrow> char option" where
  \<comment> \<open>the character before the position reached after consuming \<open>k\<close> characters of \<open>s\<close>\<close>
  "prevAfter prev s k = (case rev (take k s) of [] \<Rightarrow> prev | c # _ \<Rightarrow> Some c)"

definition litMatches :: "bool \<Rightarrow> string \<Rightarrow> string \<Rightarrow> bool" where
  \<comment> \<open>the literal is a prefix of the input; with the flag, ignoring ASCII case (\<open>/i\<close>)\<close>
  "litMatches ci l s \<longleftrightarrow>
     length l \<le> length s \<and>
     (if ci then toLowerCase (take (length l) s) = toLowerCase l else take (length l) s = l)"

text \<open>
  \<open>matchLens r prev s\<close> lists the lengths of every match of \<open>r\<close> at the start of \<open>s\<close>
  (\<open>prev\<close> is the character before it), in the order in which a backtracking matcher
  tries them: the head of the list is the match that \<open>RegExp.exec\<close> reports there.
\<close>

fun matchLens :: "regex \<Rightarrow> char option \<Rightarrow> string \<Rightarrow> nat list" where
  "matchLens (Class P) prev s = (case s of [] \<Rightarrow> [] | c # _ \<Rightarrow> if P c then [1] else [])"
| "matchLens (Lit ci l) prev s = (if litMatches ci l s then [length l] else [])"
| "matchLens WordBoundary prev s = (if isWordAt prev \<noteq> isWordAt (nextChar s) then [0] else [])"
| "matchLens (Seq a b) prev s =
     concat (map (\<lambda>k. map (\<lambda>k'. k + k') (matchLens b (prevAfter prev s k) (drop k s)))
                 (matchLens a prev s))"
| "matchLens (Alt a b) prev s = matchLens a prev s @ matchLens b prev s"
| "matchLens (Plus P) prev s = rev [1..<Suc (length (takeWhile P s))]"
| "matchLens (Star P) prev s = rev [0..<Suc (length (takeWhile P s))]"

text \<open>
  \<open>String.prototype.match\<close> with a \<open>/g\<close> pattern, followed by \<open>|| []\<close>: scan from the left,
  take the first match at the first position that has one, go on after it (one position
  further after an empty match). A match is never longer than the rest of the text; the
  test \<open>s = []\<close> after a non-empty match only makes the termination plain.
\<close>

function matchAllFrom :: "regex \<Rightarrow> char option \<Rightarrow> string \<Rightarrow> string list" where
  "matchAllFrom r prev s =
     (case matchLens r prev s of
        [] \<Rightarrow> (case s of [] \<Rightarrow> [] | c # cs \<Rightarrow> matchAllFrom r (Some c) cs)
      | k # _ \<Rightarrow>
          take k s #
          (if k = 0 then (case s of [] \<Rightarrow> [] | c # cs \<Rightarrow> matchAllFrom r (Some c) cs)
           else if s = [] then []
           else matchAllFrom r (prevAfter prev s k) (drop k s)))"
  by pat_completeness auto
termination
  by (relation "measure (\<lambda>(r, prev, s). length s)") auto

declare matchAllFrom.simps [simp del]

definition matchAll :: "regex \<Rightarrow> string \<Rightarrow> string list" where
  "matchAll r s = matchAllFrom r None s"

text \<open>
  \<open>String.prototype.replace\<close> with a \<open>/g\<close> pattern and the empty replacement: the
  same scan, keeping what no match covers.
\<close>

function removeAllFrom :: "regex \<Rightarrow> char option \<Rightarrow> string \<Rightarrow> string" where
  "removeAllFrom r prev s =
     (case s of
        [] \<Rightarrow> []
      | c # cs \<Rightarrow>
          (case matchLens r prev s of
             [] \<Rightarrow> c # removeAllFrom r (Some c) cs
           | k # _ \<Rightarrow>
               if k = 0 then c # removeAllFrom r (Some c) cs
               else removeAllFrom r (prevAfter prev s k) (drop k s)))"
  by pat_completeness auto
termination
  by (relation "measure (\<lambda>(r, prev, s). length s)") auto

declare removeAllFrom.simps [simp del]

definition removeAll :: "regex \<Rightarrow> string \<Rightarrow> string" where
  "removeAll r s = removeAllFrom r None s"

text \<open>
  \<open>String.prototype.split\<close> with a pattern and no limit. \<open>acc\<close> holds, reversed, the
  characters since the end of the last separator. At each position the pattern is tried
  there only; a match that is empty and lies at the end of the last separator is skipped.
\<close>

function splitFrom :: "regex \<Rightarrow> char option \<Rightarrow> string \<Rightarrow> string \<Rightarrow> string list" where
  "splitFrom r prev s acc =
     (case s of
        [] \<Rightarrow> [rev acc]
      | c # cs \<Rightarrow>
          (case matchLens r prev s of
             [] \<Rightarrow> splitFrom r (Some c) cs (c # acc)
           | k # _ \<Rightarrow>
               if k = 0 \<and> acc = [] then splitFrom r (Some c) cs (c # acc)
               else rev acc # splitFrom r (prevAfter prev s k) (drop k s) []))"
  by pat_completeness auto
termination
  by (relation "measure (\<lambda>(r, prev, s, acc). 2 * length s + (if acc = [] then 0 else 1))") auto

declare splitFrom.simps [simp del]

definition splitRe :: "regex \<Rightarrow> string \<Rightarrow> string list" where
  "splitRe r s =
     (if s = [] then (if matchLens r None [] = [] then [[]] else [])
      else splitFrom r None s [])"

fun alternatives :: "regex \<Rightarrow> regex list \<Rightarrow> regex" where
  "alternatives r [] = r"
| "alternatives r (x # xs) = Alt r (alternatives x xs)"

fun digitsOf :: "nat \<Rightarrow> string" where
  "digitsOf n = (if n < 10 then [char_of (48 + n)] else digitsOf (n div 10) @ [char_of (48 + n mod 10)])"

declare digitsOf.simps [simp del]

definition tenthsToString :: "real \<Rightarrow> string" where
  \<comment> \<open>What a template literal prints for the double nearest to a non-negative multiple
      of one tenth, as \<open>analyzeText\<close> stores them: \<open>12\<close>, \<open>12.3\<close>.\<close>
  "tenthsToString x =
     (let t = nat \<lfloor>x * 10 + 1 / 2\<rfloor>
      in digitsOf (t div 10) @ (if t mod 10 = 0 then [] else CHR ''.'' # digitsOf (t mod 10)))"

section \<open>Numbers of the host language\<close>

text \<open>
  The improvement score and the summary compute with JavaScript numbers, which are IEEE
  doubles. Their model takes the arithmetic as a parameter: a carrier \<open>'n\<close> for the
  numbers and the operations the code applies to them, so that every statement about
  the score and the summary holds whatever the arithmetic does, in particular for the
  doubles with their rounding, infinities and NaN.
\<close>

record 'n arith =
  numLit :: "real \<Rightarrow> 'n"
  numOfNat :: "nat \<Rightarrow> 'n"
  numAdd :: "'n \<Rightarrow> 'n \<Rightarrow> 'n"
  numSub :: "'n \<Rightarrow> 'n \<Rightarrow> 'n"
  numMul :: "'n \<Rightarrow> 'n \<Rightarrow> 'n"
  numDiv :: "'n \<Rightarrow> 'n \<Rightarrow> 'n"
  numLess :: "'n \<Rightarrow> 'n \<Rightarrow> bool"
  numRound :: "'n \<Rightarrow> 'n"

text \<open>
  \<open>numLit\<close> is the number that a decimal literal of the source denotes, \<open>numOfNat\<close> the
  number that a count is, \<open>numLess x y\<close> the test \<open>x < y\<close> (and \<open>y > x\<close>), \<open>numRound\<close> is
  \<open>Math.round\<close>.

  \<open>binary64\<close> rounds a real to the nearest double, ties to the even significand, for
  results in the normal range (no overflow, no subnormal result). \<open>binade fuel x\<close> is the
  exponent \<open>e\<close> with \<open>2^e \<le> |x| < 2^(e+1)\<close>; the fuel 1100 covers every exponent of a
  double. \<open>binary64Arith\<close> is the arithmetic of the doubles on that range, with a double
  represented by the real it equals: each operation is the exact one followed by the
  rounding, and \<open>Math.round\<close> is exact.
\<close>

definition roundTiesEven :: "real \<Rightarrow> int" where
  "roundTiesEven x =
     (let f = \<lfloor>x\<rfloor>; d = x - of_int f
      in if d < 1 / 2 then f else if 1 / 2 < d then f + 1 else if even f then f else f + 1)"

fun binade :: "nat \<Rightarrow> real \<Rightarrow> int" where
  "binade 0 x = 0"
| "binade (Suc fuel) x =
     (if 2 \<le> \<bar>x\<bar> then binade fuel (x / 2) + 1
      else if \<bar>x\<bar> < 1 then binade fuel (x * 2) - 1
      else 0)"

definition scaleBy :: "int \<Rightarrow> real \<Rightarrow> real" where
  \<comment> \<open>\<open>x \<times> 2^e\<close>\<close>
  "scaleBy e x = (if 0 \<le> e then x * 2 ^ nat e else x / 2 ^ nat (- e))"

definition binary64 :: "real \<Rightarrow> real" where
  "binary64 x =
     (if x = 0 then 0
      else let e = binade 1100 x - 52
           in scaleBy e (of_int (roundTiesEven (scaleBy (- e) x))))"

definition jsRound :: "real \<Rightarrow> int" where
  \<comment> \<open>\<open>Math.round\<close>: the nearest integer, a half rounded up\<close>
  "jsRound x = \<lfloor>x + 1 / 2\<rfloor>"

definition binary64Arith :: "real arith" where
  "binary64Arith =
     \<lparr>numLit = binary64,
      numOfNat = (\<lambda>n. binary64 (real n)),
      numAdd = (\<lambda>x y. binary64 (x + y)),
      numSub = (\<lambda>x y. binary64 (x - y)),
      numMul = (\<lambda>x y. binary64 (x * y)),
      numDiv = (\<lambda>x y. binary64 (x / y)),
      numLess = (\<lambda>x y. x < y),
      numRound = (\<lambda>x. real_of_int (jsRound x))\<rparr>"

section \<open>Word-level diff (utils/diff.js)\<close>

datatype opType = Equal | Insert | Delete

record editOp =
  type :: opType
  val :: string

record displaySegment =
  seg_text :: string
  highlighted :: bool

definition cell :: "string list \<Rightarrow> string list \<Rightarrow> nat \<Rightarrow> nat \<Rightarrow> nat list list \<Rightarrow> nat list list" where
  \<comment> \<open>the body of the inner loop of \<open>lcsTable\<close>\<close>
  "cell a b i j dp =
     (if a ! (i - 1) = b ! (j - 1)
      then dp[i := (dp ! i)[j := dp ! (i - 1) ! (j - 1) + 1]]
      else dp[i := (dp ! i)[j := max (dp ! (i - 1) ! j) (dp ! i ! (j - 1))]])"

definition lcsTable :: "string list \<Rightarrow> string list \<Rightarrow> nat list list" where
  "lcsTable a b =
     (let m = length a; n = length b;
          dp = replicate (m + 1) (replicate (n + 1) 0)
      in fold (\<lambda>i. fold (\<lambda>j. cell a b i j) [1..<n + 1]) [1..<m + 1] dp)"

function backtrackLoop ::
  "nat list list \<Rightarrow> string list \<Rightarrow> string list \<Rightarrow> nat \<Rightarrow> nat \<Rightarrow> editOp list \<Rightarrow> editOp list" where
  "backtrackLoop dp a b i j result =
     (if i > 0 \<or> j > 0 then
        (if i > 0 \<and> j > 0 \<and> a ! (i - 1) = b ! (j - 1)
         then backtrackLoop dp a b (i - 1) (j - 1) (\<lparr>type = Equal, val = a ! (i - 1)\<rparr> # result)
         else if j > 0 \<and> (i = 0 \<or> dp ! i ! (j - 1) \<ge> dp ! (i - 1) ! j)
         then backtrackLoop dp a b i (j - 1) (\<lparr>type = Insert, val = b ! (j - 1)\<rparr> # result)
         else backtrackLoop dp a b (i - 1) j (\<lparr>type = Delete, val = a ! (i - 1)\<rparr> # result))
      else result)"
  by pat_completeness auto
termination
  by (relation "measure (\<lambda>(dp, a, b, i, j, result). i + j)") auto

declare backtrackLoop.simps [simp del]

definition backtrack :: "nat list list \<Rightarrow> string list \<Rightarrow> string list \<Rightarrow> editOp list" where
  "backtrack dp a b = backtrackLoop dp a b (length a) (length b) []"

definition tokenize :: "string \<Rightarrow> string list" where
  \<comment> \<open>\<open>/\S+|\s+/g\<close>\<close>
  "tokenize text =
     (if text = [] then []
      else matchAll (Alt (Plus (\<lambda>c. \<not> isSpace c)) (Plus isSpace)) text)"

definition wordTokens :: "string \<Rightarrow> string list" where
  \<comment> \<open>\<open>tokenize(text).filter(t => t.trim() !== '')\<close>, the \<open>beforeWords\<close> and \<open>afterWords\<close>
      of \<open>computeDiff\<close>\<close>
  "wordTokens text = filter (\<lambda>t. trim t \<noteq> []) (tokenize text)"

definition computeDiff :: "string \<Rightarrow> string \<Rightarrow> editOp list" where
  "computeDiff beforeText afterText =
     (let beforeWords = wordTokens beforeText;
          afterWords = wordTokens afterText;
          dp = lcsTable beforeWords afterWords
      in backtrack dp beforeWords afterWords)"

definition getBeforeView :: "editOp list \<Rightarrow> displaySegment list" where
  "getBeforeView ops =
     map (\<lambda>op. \<lparr>seg_text = val op, highlighted = (type op = Delete)\<rparr>)
         (filter (\<lambda>op. type op = Equal \<or> type op = Delete) ops)"

definition getAfterView :: "editOp list \<Rightarrow> displaySegment list" where
  "getAfterView ops =
     map (\<lambda>op. \<lparr>seg_text = val op, highlighted = (type op = Insert)\<rparr>)
         (filter (\<lambda>op. type op = Equal \<or> type op = Insert) ops)"

section \<open>Readability metrics (utils/textAnalysis.js)\<close>

record 'n textMetrics =
  wordCount :: nat
  sentenceCount :: nat
  avgSentenceLength :: 'n
  fleschKincaidGrade :: 'n
  fleschReadingEase :: 'n
  readingTime :: int
  passiveVoiceCount :: nat
  adverbCount :: nat
  syllableCount :: nat

definition isVowel :: "char \<Rightarrow> bool" where
  \<comment> \<open>\<open>[aeiouy]\<close>\<close>
  "isVowel c \<longleftrightarrow> c \<in> {CHR ''a'', CHR ''e'', CHR ''i'', CHR ''o'', CHR ''u'', CHR ''y''}"

definition countSyllables :: "string \<Rightarrow> nat" where
  "countSyllables word0 =
     (let word = removeAll (Class (\<lambda>c. \<not> isLower c)) (toLowerCase word0) in
      if word = [] then 0
      else if length word \<le> 2 then 1
      else
        let vowelGroups = matchAll (Plus isVowel) word in
        if vowelGroups = [] then 1
        else
          let count = length vowelGroups;
              count = (if endsWith word ''e'' \<and> \<not> endsWith word ''le'' \<and> count > 1
                       then count - 1 else count);
              count = (if endsWith word ''es'' \<and> \<not> endsWith word ''tes'' \<and>
                          \<not> endsWith word ''ses'' \<and> count > 1
                       then count - 1 else count);
              count = (if endsWith word ''ed'' \<and> \<not> endsWith word ''ted'' \<and>
                          \<not> endsWith word ''ded'' \<and> count > 1
                       then count - 1 else count)
          in max 1 count)"

definition splitSentences :: "string \<Rightarrow> string list" where
  \<comment> \<open>\<open>/[.!?]+\s*/\<close>\<close>
  "splitSentences text =
     (if trim text = [] then []
      else filter (\<lambda>s. length (trim s) > 0)
             (splitRe (Seq (Plus (\<lambda>c. c \<in> {CHR ''.'', CHR ''!'', CHR ''?''})) (Star isSpace)) text))"

definition isWordPatternChar :: "char \<Rightarrow> bool" where
  \<comment> \<open>\<open>[a-zA-Z'-]\<close>\<close>
  "isWordPatternChar c \<longleftrightarrow> isLetter c \<or> c = CHR 0x27 \<or> c = CHR ''-''"

definition wordPattern :: regex where
  \<comment> \<open>\<open>/\b[a-zA-Z'-]+\b/g\<close>\<close>
  "wordPattern = Seq WordBoundary (Seq (Plus isWordPatternChar) WordBoundary)"

definition splitWords :: "string \<Rightarrow> string list" where
  "splitWords text = (if trim text = [] then [] else matchAll wordPattern text)"

definition passivePattern :: regex where
  \<comment> \<open>\<open>/\b(is|was|...|must be)\s+(\w+ed|(\w+en))\b/gi\<close>\<close>
  "passivePattern =
     Seq WordBoundary
       (Seq (alternatives (Lit True ''is'')
               (map (Lit True)
                  [''was'', ''were'', ''been'', ''being'', ''are'', ''am'', ''has been'',
                   ''have been'', ''had been'', ''will be'', ''shall be'', ''could be'',
                   ''would be'', ''might be'', ''must be'']))
          (Seq (Plus isSpace)
             (Seq (Alt (Seq (Plus isWordChar) (Lit True ''ed''))
                       (Seq (Plus isWordChar) (Lit True ''en'')))
                WordBoundary)))"

definition countPassiveVoice :: "string \<Rightarrow> nat" where
  "countPassiveVoice text = length (matchAll passivePattern text)"

definition nonAdverbs :: "string list" where
  "nonAdverbs =
     [''only'', ''family'', ''early'', ''daily'', ''holy'', ''ugly'', ''lonely'',
      ''friendly'', ''lovely'', ''likely'', ''unlikely'', ''rally'', ''belly'',
      ''bully'', ''fly'', ''ally'', ''apply'', ''supply'', ''reply'', ''july'',
      ''italy'', ''multiply'', ''butterfly'', ''jelly'', ''lily'', ''assembly'',
      ''anomaly'', ''homily'', ''melancholy'', ''monopoly'', ''poly'', ''curly'']"

definition countAdverbs :: "string \<Rightarrow> nat" where
  "countAdverbs text =
     length (filter (\<lambda>w. let lower = toLowerCase w
                          in endsWith lower ''ly'' \<and> length lower > 3 \<and> lower \<notin> set nonAdverbs)
               (splitWords text))"

definition analyzeText :: "string \<Rightarrow> real textMetrics" where
  \<comment> \<open>The numbers of the result are doubles in the normal range, so the arithmetic is
      \<open>binary64Arith\<close>; \<open>Math.max\<close>, \<open>Math.min\<close> and \<open>Math.round\<close> are exact.\<close>
  "analyzeText text =
     (if text = [] \<or> trim text = [] then
        \<lparr>wordCount = 0, sentenceCount = 0, avgSentenceLength = 0, fleschKincaidGrade = 0,
         fleschReadingEase = 0, readingTime = 0, passiveVoiceCount = 0, adverbCount = 0,
         syllableCount = 0\<rparr>
      else
        let ar = binary64Arith;
            words = splitWords text;
            sentences = splitSentences text;
            wordCount = length words;
            sentenceCount = max (length sentences) 1;
            avgSentenceLength = numDiv ar (numOfNat ar wordCount) (numOfNat ar sentenceCount);
            syllableCount = foldl (\<lambda>sum w. sum + countSyllables w) 0 words;
            avgSyllablesPerWord =
              (if wordCount > 0 then numDiv ar (numOfNat ar syllableCount) (numOfNat ar wordCount)
               else numLit ar 0);
            fleschKincaidGrade =
              (if wordCount > 0
               then numSub ar (numAdd ar (numMul ar (numLit ar 0.39) avgSentenceLength)
                                         (numMul ar (numLit ar 11.8) avgSyllablesPerWord))
                              (numLit ar 15.59)
               else numLit ar 0);
            fleschReadingEase =
              (if wordCount > 0
               then numSub ar (numSub ar (numLit ar 206.835)
                                         (numMul ar (numLit ar 1.015) avgSentenceLength))
                              (numMul ar (numLit ar 84.6) avgSyllablesPerWord)
               else numLit ar 0);
            readingTime =
              jsRound (numMul ar (numDiv ar (numOfNat ar wordCount) (numLit ar 200)) (numLit ar 60));
            passiveVoiceCount = countPassiveVoice text;
            adverbCount = countAdverbs text
        in \<lparr>wordCount = wordCount,
            sentenceCount = sentenceCount,
            avgSentenceLength =
              numDiv ar (numRound ar (numMul ar avgSentenceLength (numLit ar 10))) (numLit ar 10),
            fleschKincaidGrade =
              numDiv ar (numRound ar (numMul ar (max (numLit ar 0) fleschKincaidGrade) (numLit ar 10)))
                        (numLit ar 10),
            fleschReadingEase =
              numDiv ar (numRound ar (numMul ar (min (numLit ar 100) (max (numLit ar 0) fleschReadingEase))
                                                (numLit ar 10)))
                        (numLit ar 10),
            readingTime = readingTime,
            passiveVoiceCount = passiveVoiceCount,
            adverbCount = adverbCount,
            syllableCount = syllableCount\<rparr>)"

text \<open>
  \<open>calculateImprovementScore\<close> adds to the variable \<open>totalScore\<close> in five blocks, one
  for each weighted metric. Each block is a function from the value of \<open>totalScore\<close>
  before it to the value after it; the weights are written where the code reads them.
\<close>

definition easeBlock :: "'n arith \<Rightarrow> 'n textMetrics \<Rightarrow> 'n textMetrics \<Rightarrow> 'n \<Rightarrow> 'n" where
  \<comment> \<open>Flesch Reading Ease: higher is better\<close>
  "easeBlock ar beforeMetrics afterMetrics totalScore =
     (if numLess ar (numLit ar 0) (fleschReadingEase beforeMetrics)
      then let change = numDiv ar (numSub ar (fleschReadingEase afterMetrics)
                                             (fleschReadingEase beforeMetrics))
                                  (fleschReadingEase beforeMetrics)
           in numAdd ar totalScore (numMul ar change (numLit ar 0.30))
      else totalScore)"

definition gradeBlock :: "'n arith \<Rightarrow> 'n textMetrics \<Rightarrow> 'n textMetrics \<Rightarrow> 'n \<Rightarrow> 'n" where
  \<comment> \<open>Flesch-Kincaid Grade: lower is better\<close>
  "gradeBlock ar beforeMetrics afterMetrics totalScore =
     (if numLess ar (numLit ar 0) (fleschKincaidGrade beforeMetrics)
      then let change = numDiv ar (numSub ar (fleschKincaidGrade beforeMetrics)
                                             (fleschKincaidGrade afterMetrics))
                                  (fleschKincaidGrade beforeMetrics)
           in numAdd ar totalScore (numMul ar change (numLit ar 0.25))
      else totalScore)"

definition lengthBlock :: "'n arith \<Rightarrow> 'n textMetrics \<Rightarrow> 'n textMetrics \<Rightarrow> 'n \<Rightarrow> 'n" where
  \<comment> \<open>Avg sentence length: shorter is better\<close>
  "lengthBlock ar beforeMetrics afterMetrics totalScore =
     (if numLess ar (numLit ar 0) (avgSentenceLength beforeMetrics)
      then let change = numDiv ar (numSub ar (avgSentenceLength beforeMetrics)
                                             (avgSentenceLength afterMetrics))
                                  (avgSentenceLength beforeMetrics)
           in numAdd ar totalScore (numMul ar change (numLit ar 0.20))
      else totalScore)"

definition passiveBlock :: "'n arith \<Rightarrow> 'n textMetrics \<Rightarrow> 'n textMetrics \<Rightarrow> 'n \<Rightarrow> 'n" where
  \<comment> \<open>Passive voice: fewer is better\<close>
  "passiveBlock ar beforeMetrics afterMetrics totalScore =
     (if passiveVoiceCount beforeMetrics > 0
      then let change = numDiv ar (numSub ar (numOfNat ar (passiveVoiceCount beforeMetrics))
                                             (numOfNat ar (passiveVoiceCount afterMetrics)))
                                  (numOfNat ar (passiveVoiceCount beforeMetrics))
           in numAdd ar totalScore (numMul ar change (numLit ar 0.15))
      else if passiveVoiceCount afterMetrics = 0
      then numAdd ar totalScore (numLit ar 0)
      else numSub ar totalScore (numMul ar (numLit ar 0.15) (numLit ar 0.5)))"

definition adverbBlock :: "'n arith \<Rightarrow> 'n textMetrics \<Rightarrow> 'n textMetrics \<Rightarrow> 'n \<Rightarrow> 'n" where
  \<comment> \<open>Adverbs: fewer is better\<close>
  "adverbBlock ar beforeMetrics afterMetrics totalScore =
     (if adverbCount beforeMetrics > 0
      then let change = numDiv ar (numSub ar (numOfNat ar (adverbCount beforeMetrics))
                                             (numOfNat ar (adverbCount afterMetrics)))
                                  (numOfNat ar (adverbCount beforeMetrics))
           in numAdd ar totalScore (numMul ar change (numLit ar 0.10))
      else if adverbCount afterMetrics > 0
      then numSub ar totalScore (numMul ar (numLit ar 0.10) (numLit ar 0.5))
      else totalScore)"

definition calculateImprovementScore :: "'n arith \<Rightarrow> 'n textMetrics \<Rightarrow> 'n textMetrics \<Rightarrow> 'n" where
  "calculateImprovementScore ar beforeMetrics afterMetrics =
     (if wordCount beforeMetrics = 0 \<or> wordCount afterMetrics = 0 then numLit ar 0
      else
        let totalScore = numLit ar 0;
            totalScore = easeBlock ar beforeMetrics afterMetrics totalScore;
            totalScore = gradeBlock ar beforeMetrics afterMetrics totalScore;
            totalScore = lengthBlock ar beforeMetrics afterMetrics totalScore;
            totalScore = passiveBlock ar beforeMetrics afterMetrics totalScore;
            totalScore = adverbBlock ar beforeMetrics afterMetrics totalScore
        in numRound ar (numMul ar totalScore (numLit ar 100)))"

text \<open>
  \<open>generateSummary\<close> prints numbers inside template literals; what a number prints as
  is the parameter \<open>str\<close>. \<open>observations\<close> is the array of that name when the five
  threshold blocks have run. The differences of counts are differences of integers.
\<close>

definition observations ::
  "'n arith \<Rightarrow> ('n \<Rightarrow> string) \<Rightarrow> 'n textMetrics \<Rightarrow> 'n textMetrics \<Rightarrow> string list" where
  "observations ar str beforeMetrics afterMetrics =
     (let wordDiff = int (wordCount afterMetrics) - int (wordCount beforeMetrics);
          gradeDiff = numSub ar (fleschKincaidGrade afterMetrics) (fleschKincaidGrade beforeMetrics);
          sentDiff = numSub ar (avgSentenceLength afterMetrics) (avgSentenceLength beforeMetrics);
          passiveDiff = int (passiveVoiceCount afterMetrics) - int (passiveVoiceCount beforeMetrics);
          adverbDiff = int (adverbCount afterMetrics) - int (adverbCount beforeMetrics)
      in (if wordDiff < -10 then [''Your revision is more concise'']
          else if wordDiff > 10 then [''Your revision is longer'']
          else [])
       @ (if numLess ar gradeDiff (numLit ar (-1))
          then [''easier to read (grade level dropped from '' @ str (fleschKincaidGrade beforeMetrics)
                  @ '' to '' @ str (fleschKincaidGrade afterMetrics) @ '')'']
          else if numLess ar (numLit ar 1) gradeDiff
          then [''more complex (grade level rose from '' @ str (fleschKincaidGrade beforeMetrics)
                  @ '' to '' @ str (fleschKincaidGrade afterMetrics) @ '')'']
          else [])
       @ (if numLess ar sentDiff (numLit ar (-3)) then [''uses shorter sentences'']
          else if numLess ar (numLit ar 3) sentDiff then [''has longer sentences'']
          else [])
       @ (if passiveDiff < 0 then [''uses more active voice'']
          else if passiveDiff > 0 then [''introduces more passive voice'']
          else [])
       @ (if adverbDiff < -2 then [''cuts unnecessary adverbs'']
          else if adverbDiff > 2 then [''adds more adverbs'']
          else []))"

definition join :: "string \<Rightarrow> string list \<Rightarrow> string" where
  \<comment> \<open>\<open>Array.prototype.join\<close>\<close>
  "join sep xs = (case xs of [] \<Rightarrow> [] | y # ys \<Rightarrow> foldl (\<lambda>acc x. acc @ sep @ x) y ys)"

definition generateSummary ::
  "'n arith \<Rightarrow> ('n \<Rightarrow> string) \<Rightarrow> 'n textMetrics \<Rightarrow> 'n textMetrics \<Rightarrow> 'n \<Rightarrow> string" where
  "generateSummary ar str beforeMetrics afterMetrics improvementScore =
     (if wordCount beforeMetrics = 0 \<or> wordCount afterMetrics = 0
      then ''Enter text in both fields to see an analysis.''
      else
        let obs = observations ar str beforeMetrics afterMetrics in
        if length obs = 0
        then ''The two versions are very similar in readability. The differences are minimal.''
        else
          let summary = map toUpperChar (take 1 (obs ! 0)) @ drop 1 (obs ! 0);
              summary =
                (if length obs > 1 then
                   (let rest = drop 1 obs in
                    if length rest = 1 then summary @ '' and '' @ rest ! 0
                    else summary @ '', '' @ join '', '' (butlast rest) @ '', and ''
                           @ rest ! (length rest - 1))
                 else summary);
              summary = summary @ ''.'';
              summary =
                (if numLess ar (numLit ar 5) improvementScore
                 then summary @ '' Overall, this is a stronger version for a wider audience.''
                 else if numLess ar improvementScore (numLit ar (-5))
                 then summary @ '' Consider simplifying sentences and using more direct language.''
                 else summary @ '' The readability is roughly the same as the original.'');
              summary =
                (if numLess ar (numLit ar 20) (avgSentenceLength afterMetrics)
                 then summary @ '' Tip: Your average sentence is '' @ str (avgSentenceLength afterMetrics)
                        @ '' words. Consider breaking up sentences longer than 20 words.''
                 else summary)
          in summary)"

section \<open>The differ and the syllable estimate as the specification words them\<close>

subsection \<open>Section 4.2: the table of the recurrence and the walk back\<close>

text \<open>
  \<open>specDp\<close> is the table of the recurrence, \<open>specBacktrack\<close> the walk from \<open>(i, j)\<close>
  back to \<open>(0, 0)\<close> with the stated step rule, giving the operations in forward order.
  \<open>filled a b i j dp\<close> says that \<open>dp\<close> has the shape of the table and holds the
  recurrence's values in the rows before \<open>i\<close> and in row \<open>i\<close> before column \<open>j\<close>.
\<close>

function specDp :: "string list \<Rightarrow> string list \<Rightarrow> nat \<Rightarrow> nat \<Rightarrow> nat" where
  "specDp a b i j =
     (if i = 0 \<or> j = 0 then 0
      else if a ! (i - 1) = b ! (j - 1) then specDp a b (i - 1) (j - 1) + 1
      else max (specDp a b (i - 1) j) (specDp a b i (j - 1)))"
  by pat_completeness auto
termination
  by (relation "measure (\<lambda>(a, b, i, j). i + j)") auto

declare specDp.simps [simp del]

function specBacktrack :: "string list \<Rightarrow> string list \<Rightarrow> nat \<Rightarrow> nat \<Rightarrow> editOp list" where
  "specBacktrack a b i j =
     (if i = 0 \<and> j = 0 then []
      else if i > 0 \<and> j > 0 \<and> a ! (i - 1) = b ! (j - 1)
      then specBacktrack a b (i - 1) (j - 1) @ [\<lparr>type = Equal, val = a ! (i - 1)\<rparr>]
      else if j > 0 \<and> (i = 0 \<or> specDp a b i (j - 1) \<ge> specDp a b (i - 1) j)
      then specBacktrack a b i (j - 1) @ [\<lparr>type = Insert, val = b ! (j - 1)\<rparr>]
      else specBacktrack a b (i - 1) j @ [\<lparr>type = Delete, val = a ! (i - 1)\<rparr>])"
  by pat_completeness auto
termination
  by (relation "measure (\<lambda>(a, b, i, j). i + j)") auto

declare specBacktrack.simps [simp del]

definition filled :: "string list \<Rightarrow> string list \<Rightarrow> nat \<Rightarrow> nat \<Rightarrow> nat list list \<Rightarrow> bool" where
  "filled a b i j dp \<longleftrightarrow>
     length dp = length a + 1 \<and>
     (\<forall>r \<le> length a. length (dp ! r) = length b + 1) \<and>
     (\<forall>r \<le> length a. dp ! r ! 0 = 0) \<and>
     (\<forall>r c. r \<le> length a \<longrightarrow> c \<le> length b \<longrightarrow> (r < i \<or> (r = i \<and> c < j)) \<longrightarrow>
            dp ! r ! c = specDp a b r c)"

subsection \<open>Section 4.4: the syllable estimate\<close>

text \<open>
  \<open>countRuns P False s\<close> is the number of maximal runs of characters of \<open>s\<close> that
  satisfy \<open>P\<close>. \<open>syllableSpec\<close> lower-cases, strips the non-letters, answers 1 up to
  length 2, and otherwise adjusts the number of vowel runs and floors it at 1.
\<close>

fun countRuns :: "(char \<Rightarrow> bool) \<Rightarrow> bool \<Rightarrow> string \<Rightarrow> nat" where
  "countRuns P inRun [] = 0"
| "countRuns P inRun (c # cs) =
     (if P c then (if inRun then 0 else 1) + countRuns P True cs else countRuns P False cs)"

definition syllableSpec :: "string \<Rightarrow> nat" where
  "syllableSpec w =
     (let s = filter isLetter (toLowerCase w) in
      if length s \<le> 2 then 1
      else
        let base = countRuns isVowel False s;
            count = (if endsWith s ''e'' \<and> \<not> endsWith s ''le'' \<and> base > 1 then base - 1 else base);
            count = (if endsWith s ''es'' \<and> \<not> endsWith s ''tes'' \<and> \<not> endsWith s ''ses'' \<and> count > 1
                     then count - 1 else count);
            count = (if endsWith s ''ed'' \<and> \<not> endsWith s ''ted'' \<and> \<not> endsWith s ''ded'' \<and> count > 1
                     then count - 1 else count)
        in max 1 count)"

section \<open>Properties of the differ\<close>

lemma take_last_nth: "0 < i \<Longrightarrow> i \<le> length xs \<Longrightarrow> take i xs = take (i - 1) xs @ [xs ! (i - 1)]"
  by (cases i) (simp_all add: take_Suc_conv_app_nth)

lemma backtrackLoop_stop: "backtrackLoop dp a b 0 0 res = res"
  by (subst backtrackLoop.simps) simp

lemma backtrackLoop_equal:
  "0 < i \<Longrightarrow> 0 < j \<Longrightarrow> a ! (i - 1) = b ! (j - 1) \<Longrightarrow>
   backtrackLoop dp a b i j res
     = backtrackLoop dp a b (i - 1) (j - 1) (\<lparr>type = Equal, val = a ! (i - 1)\<rparr> # res)"
  by (subst backtrackLoop.simps) simp

lemma backtrackLoop_insert:
  "\<not> (0 < i \<and> 0 < j \<and> a ! (i - 1) = b ! (j - 1)) \<Longrightarrow>
   0 < j \<and> (i = 0 \<or> dp ! i ! (j - 1) \<ge> dp ! (i - 1) ! j) \<Longrightarrow>
   backtrackLoop dp a b i j res
     = backtrackLoop dp a b i (j - 1) (\<lparr>type = Insert, val = b ! (j - 1)\<rparr> # res)"
  by (subst backtrackLoop.simps) auto

lemma backtrackLoop_delete:
  "0 < i \<or> 0 < j \<Longrightarrow> \<not> (0 < i \<and> 0 < j \<and> a ! (i - 1) = b ! (j - 1)) \<Longrightarrow>
   \<not> (0 < j \<and> (i = 0 \<or> dp ! i ! (j - 1) \<ge> dp ! (i - 1) ! j)) \<Longrightarrow>
   backtrackLoop dp a b i j res
     = backtrackLoop dp a b (i - 1) j (\<lparr>type = Delete, val = a ! (i - 1)\<rparr> # res)"
  by (subst backtrackLoop.simps) auto




lemma specDp_zero [simp]: "specDp a b 0 j = 0" "specDp a b i 0 = 0"
  by (simp_all add: specDp.simps)

lemma specDp_step:
  "0 < i \<Longrightarrow> 0 < j \<Longrightarrow>
   specDp a b i j = (if a ! (i - 1) = b ! (j - 1) then specDp a b (i - 1) (j - 1) + 1
                     else max (specDp a b (i - 1) j) (specDp a b i (j - 1)))"
  by (subst specDp.simps) simp

lemma cell_value:
  assumes f: "filled a b i j dp" and i: "0 < i" "i \<le> length a" and j: "0 < j" "j \<le> length b"
  shows "cell a b i j dp = dp[i := (dp ! i)[j := specDp a b i j]]"
proof -
  from f i j have "dp ! (i - 1) ! (j - 1) = specDp a b (i - 1) (j - 1)"
    "dp ! (i - 1) ! j = specDp a b (i - 1) j" "dp ! i ! (j - 1) = specDp a b i (j - 1)"
    by (simp_all add: filled_def)
  then show ?thesis using i j by (simp add: cell_def specDp_step)
qed

lemma filled_cell:
  assumes f: "filled a b i j dp" and i: "0 < i" "i \<le> length a" and j: "0 < j" "j \<le> length b"
  shows "filled a b i (Suc j) (cell a b i j dp)"
proof -
  let ?dp = "dp[i := (dp ! i)[j := specDp a b i j]]"
  have len: "length dp = length a + 1" and rows: "\<And>r. r \<le> length a \<Longrightarrow> length (dp ! r) = length b + 1"
    and z: "\<And>r. r \<le> length a \<Longrightarrow> dp ! r ! 0 = 0"
    and v: "\<And>r c. r \<le> length a \<Longrightarrow> c \<le> length b \<Longrightarrow> r < i \<or> (r = i \<and> c < j) \<Longrightarrow> dp ! r ! c = specDp a b r c"
    using f by (auto simp: filled_def)
  have nth: "\<And>r c. r \<le> length a \<Longrightarrow> c \<le> length b \<Longrightarrow>
      ?dp ! r ! c = (if r = i \<and> c = j then specDp a b i j else dp ! r ! c)"
    using len rows i j by (auto simp: nth_list_update)
  have "filled a b i (Suc j) ?dp"
    unfolding filled_def
  proof (intro conjI allI impI)
    show "length ?dp = length a + 1" using len by simp
  next
    fix r assume "r \<le> length a"
    then show "length (?dp ! r) = length b + 1" using len rows[of r] rows[of i] i
      by (cases "r = i") simp_all
  next
    fix r assume "r \<le> length a"
    then show "?dp ! r ! 0 = 0" using nth[of r 0] z j by auto
  next
    fix r c assume "r \<le> length a" "c \<le> length b" "r < i \<or> (r = i \<and> c < Suc j)"
    then show "?dp ! r ! c = specDp a b r c" using nth[of r c] v[of r c] by (auto simp: less_Suc_eq)
  qed
  then show ?thesis using cell_value[OF f i j] by simp
qed

lemma filled_row:
  assumes f: "filled a b i 1 dp" and i: "0 < i" "i \<le> length a"
  shows "k \<le> length b \<Longrightarrow> filled a b i (Suc k) (fold (cell a b i) [1..<Suc k] dp)"
proof (induction k)
  case 0
  then show ?case using f by simp
next
  case (Suc k)
  then have "filled a b i (Suc k) (fold (cell a b i) [1..<Suc k] dp)" by simp
  from filled_cell[OF this i] Suc.prems
  have "filled a b i (Suc (Suc k)) (cell a b i (Suc k) (fold (cell a b i) [1..<Suc k] dp))"
    by simp
  moreover have "[1..<Suc (Suc k)] = [1..<Suc k] @ [Suc k]" by simp
  ultimately show ?case by (simp del: upt_Suc)
qed

lemma filled_next_row:
  assumes f: "filled a b i (Suc (length b)) dp"
  shows "filled a b (Suc i) 1 dp"
proof -
  have z: "\<And>r. r \<le> length a \<Longrightarrow> dp ! r ! 0 = 0"
    and v: "\<And>r c. r \<le> length a \<Longrightarrow> c \<le> length b \<Longrightarrow> r < i \<or> (r = i \<and> c < Suc (length b)) \<Longrightarrow> dp ! r ! c = specDp a b r c"
    using f by (auto simp: filled_def)
  have "dp ! r ! c = specDp a b r c"
    if "r \<le> length a" "c \<le> length b" "r < Suc i \<or> (r = Suc i \<and> c < 1)" for r c
  proof (cases "r = Suc i")
    case True
    then show ?thesis using that z[of r] by auto
  next
    case False
    then have "r < i \<or> (r = i \<and> c < Suc (length b))" using that by auto
    then show ?thesis using v that by blast
  qed
  then show ?thesis using f by (simp add: filled_def)
qed

lemma filled_rows:
  assumes f: "filled a b 1 1 dp"
  shows "k \<le> length a \<Longrightarrow>
         filled a b (Suc k) 1 (fold (\<lambda>i. fold (cell a b i) [1..<Suc (length b)]) [1..<Suc k] dp)"
proof (induction k)
  case 0
  then show ?case using f by simp
next
  case (Suc k)
  then have "filled a b (Suc k) 1 (fold (\<lambda>i. fold (cell a b i) [1..<Suc (length b)]) [1..<Suc k] dp)"
    by simp
  from filled_row[OF this, of "length b"] Suc.prems
  have "filled a b (Suc k) (Suc (length b))
          (fold (cell a b (Suc k)) [1..<Suc (length b)]
             (fold (\<lambda>i. fold (cell a b i) [1..<Suc (length b)]) [1..<Suc k] dp))"
    by simp
  then have "filled a b (Suc (Suc k)) 1
          (fold (cell a b (Suc k)) [1..<Suc (length b)]
             (fold (\<lambda>i. fold (cell a b i) [1..<Suc (length b)]) [1..<Suc k] dp))"
    by (rule filled_next_row)
  moreover have "[1..<Suc (Suc k)] = [1..<Suc k] @ [Suc k]" by simp
  ultimately show ?case by (simp del: upt_Suc)
qed

lemma filled_init:
  "filled a b 1 1 (replicate (length a + 1) (replicate (length b + 1) 0))"
  by (simp add: filled_def del: replicate.simps)

lemma lcsTable_specDp:
  "i \<le> length a \<Longrightarrow> j \<le> length b \<Longrightarrow> lcsTable a b ! i ! j = specDp a b i j"
proof -
  assume i: "i \<le> length a" and j: "j \<le> length b"
  have "filled a b (Suc (length a)) 1 (lcsTable a b)"
    using filled_rows[OF filled_init, of "length a" a b] by (simp add: lcsTable_def Let_def)
  then show ?thesis using i j by (auto simp: filled_def)
qed

lemma specBacktrack_stop: "specBacktrack a b 0 0 = []"
  by (subst specBacktrack.simps) simp

lemma backtrackLoop_spec:
  "\<forall>r c. r \<le> length a \<longrightarrow> c \<le> length b \<longrightarrow> dp ! r ! c = specDp a b r c \<Longrightarrow>
   i \<le> length a \<Longrightarrow> j \<le> length b \<Longrightarrow>
   backtrackLoop dp a b i j res = specBacktrack a b i j @ res"
proof (induction dp a b i j res rule: backtrackLoop.induct)
  case (1 dp a b i j result)
  have dp: "\<And>r c. r \<le> length a \<Longrightarrow> c \<le> length b \<Longrightarrow> dp ! r ! c = specDp a b r c"
    using "1.prems"(1) by blast
  let ?eq = "i > 0 \<and> j > 0 \<and> a ! (i - 1) = b ! (j - 1)"
  let ?ins = "j > 0 \<and> (i = 0 \<or> dp ! i ! (j - 1) \<ge> dp ! (i - 1) ! j)"
  consider (stop) "\<not> (i > 0 \<or> j > 0)" | (eq) "?eq" | (ins) "\<not> ?eq" "?ins"
    | (del) "i > 0 \<or> j > 0" "\<not> ?eq" "\<not> ?ins" by blast
  then show ?case
  proof cases
    case stop
    then show ?thesis by (simp add: backtrackLoop_stop specBacktrack_stop)
  next
    case eq
    then have "specBacktrack a b i j
        = specBacktrack a b (i - 1) (j - 1) @ [\<lparr>type = Equal, val = a ! (i - 1)\<rparr>]"
      by (subst specBacktrack.simps) simp
    then show ?thesis
      using "1.IH"(1) eq "1.prems" by (simp add: backtrackLoop_equal)
  next
    case ins
    have "i = 0 \<or> specDp a b i (j - 1) \<ge> specDp a b (i - 1) j"
    proof (cases "i = 0")
      case False
      then have "dp ! i ! (j - 1) = specDp a b i (j - 1)" "dp ! (i - 1) ! j = specDp a b (i - 1) j"
        using "1.prems"(2,3) by (simp_all add: dp)
      then show ?thesis using ins False by simp
    qed simp
    with ins have "specBacktrack a b i j
        = specBacktrack a b i (j - 1) @ [\<lparr>type = Insert, val = b ! (j - 1)\<rparr>]"
      by (subst specBacktrack.simps) auto
    then show ?thesis
      using "1.IH"(2) ins "1.prems" by (simp add: backtrackLoop_insert)
  next
    case del
    then have i: "i > 0" by auto
    have "\<not> (0 < j \<and> (i = 0 \<or> specDp a b i (j - 1) \<ge> specDp a b (i - 1) j))"
    proof (cases "0 < j")
      case True
      then have "dp ! i ! (j - 1) = specDp a b i (j - 1)" "dp ! (i - 1) ! j = specDp a b (i - 1) j"
        using "1.prems"(2,3) by (simp_all add: dp)
      then show ?thesis using del i by simp
    qed simp
    with del i have "specBacktrack a b i j
        = specBacktrack a b (i - 1) j @ [\<lparr>type = Delete, val = a ! (i - 1)\<rparr>]"
      by (subst specBacktrack.simps) auto
    then show ?thesis
      using "1.IH"(3) del "1.prems" by (simp add: backtrackLoop_delete)
  qed
qed


text \<open>
  C2. The edit script of \<open>computeDiff\<close> is the one obtained by walking the table of the
  LCS recurrence from \<open>(m, n)\<close> to \<open>(0, 0)\<close>: Equal on a match, else Insert when \<open>j > 0\<close>
  and (\<open>i = 0\<close> or \<open>dp[i][j-1] \<ge> dp[i-1][j]\<close>), else Delete; operations in forward order.
\<close>

theorem computeDiff_is_spec_backtrack:
  "backtrack (lcsTable a b) a b = specBacktrack a b (length a) (length b) \<and>
   computeDiff A B =
     specBacktrack (wordTokens A) (wordTokens B) (length (wordTokens A)) (length (wordTokens B))"
proof -
  have "backtrack (lcsTable x y) x y = specBacktrack x y (length x) (length y)" for x y
    using backtrackLoop_spec[of x y "lcsTable x y" "length x" "length y" "[]"]
    by (simp add: backtrack_def lcsTable_specDp)
  then show ?thesis by (simp add: computeDiff_def Let_def)
qed


section \<open>Properties of the improvement score and the summary\<close>

lemma binary64_zero: "binary64 0 = 0"
  by (simp add: binary64_def)

lemma binary64Arith_zero_not_positive:
  "\<not> numLess binary64Arith (numLit binary64Arith 0) (numLit binary64Arith 0)"
  by (simp add: binary64Arith_def)

lemma metrics_go:
  "analyzeText ''Go.'' =
     \<lparr>wordCount = 1, sentenceCount = 1, avgSentenceLength = 1, fleschKincaidGrade = 0,
      fleschReadingEase = 100, readingTime = 0, passiveVoiceCount = 0, adverbCount = 0,
      syllableCount = 1\<rparr>"
  by code_simp

lemma metrics_was_fed:
  "analyzeText ''Was fed.'' =
     \<lparr>wordCount = 2, sentenceCount = 1, avgSentenceLength = 2, fleschKincaidGrade = 0,
      fleschReadingEase = 100, readingTime = 1, passiveVoiceCount = 1, adverbCount = 0,
      syllableCount = 2\<rparr>"
  by code_simp

lemma score_go_was_fed:
  "calculateImprovementScore binary64Arith (analyzeText ''Go.'') (analyzeText ''Was fed.'') = - 28"
  unfolding metrics_go metrics_was_fed by code_simp

text \<open>
  C4. With non-zero word counts the score is \<open>Math.round(totalScore * 100)\<close>, where
  \<open>totalScore\<close> starts at 0 and runs through the five blocks. The block of a metric whose
  before value is 0 leaves \<open>totalScore\<close> as it is, except for the passive-voice and the
  adverb counts: with before 0 and after above 0 their block subtracts the weight times 0.5
  (0.15 and 0.10 are the two weights). With before 0 and after 0 the passive-voice block
  adds the number 0 and the adverb block does nothing. This holds in every arithmetic in
  which \<open>0 > 0\<close> is false.
\<close>

theorem score_blocks:
  assumes "\<not> numLess ar (numLit ar 0) (numLit ar 0)"
    and "wordCount b \<noteq> 0" and "wordCount a \<noteq> 0"
  shows "calculateImprovementScore ar b a =
           numRound ar
             (numMul ar
                (adverbBlock ar b a
                   (passiveBlock ar b a
                      (lengthBlock ar b a
                         (gradeBlock ar b a
                            (easeBlock ar b a (numLit ar 0))))))
                (numLit ar 100)) \<and>
         (fleschReadingEase b = numLit ar 0 \<longrightarrow> easeBlock ar b a t = t) \<and>
         (fleschKincaidGrade b = numLit ar 0 \<longrightarrow> gradeBlock ar b a t = t) \<and>
         (avgSentenceLength b = numLit ar 0 \<longrightarrow> lengthBlock ar b a t = t) \<and>
         (passiveVoiceCount b = 0 \<longrightarrow>
            passiveBlock ar b a t =
              (if passiveVoiceCount a > 0
               then numSub ar t (numMul ar (numLit ar 0.15) (numLit ar 0.5))
               else numAdd ar t (numLit ar 0))) \<and>
         (adverbCount b = 0 \<longrightarrow>
            adverbBlock ar b a t =
              (if adverbCount a > 0
               then numSub ar t (numMul ar (numLit ar 0.10) (numLit ar 0.5))
               else t))"
proof (intro conjI impI)
  show "calculateImprovementScore ar b a =
           numRound ar
             (numMul ar
                (adverbBlock ar b a
                   (passiveBlock ar b a
                      (lengthBlock ar b a
                         (gradeBlock ar b a
                            (easeBlock ar b a (numLit ar 0))))))
                (numLit ar 100))"
    using assms(2,3) by (simp add: calculateImprovementScore_def Let_def)
next
  assume "fleschReadingEase b = numLit ar 0"
  then show "easeBlock ar b a t = t" using assms(1) by (simp add: easeBlock_def)
next
  assume "fleschKincaidGrade b = numLit ar 0"
  then show "gradeBlock ar b a t = t" using assms(1) by (simp add: gradeBlock_def)
next
  assume "avgSentenceLength b = numLit ar 0"
  then show "lengthBlock ar b a t = t" using assms(1) by (simp add: lengthBlock_def)
next
  assume "passiveVoiceCount b = 0"
  then show "passiveBlock ar b a t =
              (if passiveVoiceCount a > 0
               then numSub ar t (numMul ar (numLit ar 0.15) (numLit ar 0.5))
               else numAdd ar t (numLit ar 0))"
    by (simp add: passiveBlock_def)
next
  assume "adverbCount b = 0"
  then show "adverbBlock ar b a t =
              (if adverbCount a > 0
               then numSub ar t (numMul ar (numLit ar 0.10) (numLit ar 0.5))
               else t)"
    by (simp add: adverbBlock_def)
qed

theorem score_blocks_witness:
  "calculateImprovementScore binary64Arith (analyzeText ''Go.'') (analyzeText ''Was fed.'') = - 28 \<and>
   gradeBlock binary64Arith (analyzeText ''Go.'') (analyzeText ''Was fed.'') (- 28) = - 28 \<and>
   passiveBlock binary64Arith (analyzeText ''Go.'') (analyzeText ''Was fed.'') (- 28) =
     numSub binary64Arith (- 28)
       (numMul binary64Arith (numLit binary64Arith 0.15) (numLit binary64Arith 0.5)) \<and>
   adverbBlock binary64Arith (analyzeText ''Go.'') (analyzeText ''Was fed.'') (- 28) = - 28"
proof -
  have w: "wordCount (analyzeText ''Go.'') \<noteq> 0" "wordCount (analyzeText ''Was fed.'') \<noteq> 0"
    by (simp_all add: metrics_go metrics_was_fed)
  have z: "fleschKincaidGrade (analyzeText ''Go.'') = numLit binary64Arith 0"
    "passiveVoiceCount (analyzeText ''Go.'') = 0" "adverbCount (analyzeText ''Go.'') = 0"
    "passiveVoiceCount (analyzeText ''Was fed.'') > 0" "\<not> adverbCount (analyzeText ''Was fed.'') > 0"
    by (simp_all add: metrics_go metrics_was_fed binary64Arith_def binary64_zero)
  from score_blocks[OF binary64Arith_zero_not_positive w, of "- 28"] z score_go_was_fed
  show ?thesis by simp
qed

text \<open>
  C7. If either metrics object has word count 0, the score is the number 0.
\<close>

theorem score_zero_words:
  "wordCount b = 0 \<or> wordCount a = 0 \<Longrightarrow> calculateImprovementScore ar b a = numLit ar 0"
  by (simp add: calculateImprovementScore_def)

theorem score_zero_words_witness:
  "calculateImprovementScore binary64Arith (analyzeText []) (analyzeText ''Was fed.'') = 0"
proof -
  have "wordCount (analyzeText []) = 0 \<or> wordCount (analyzeText ''Was fed.'') = 0"
    by (simp add: analyzeText_def)
  from score_zero_words[OF this, of binary64Arith] show ?thesis
    by (simp add: binary64Arith_def binary64_zero)
qed

lemma observations_empty_iff:
  "observations ar str b a = [] \<longleftrightarrow>
     \<not> int (wordCount a) - int (wordCount b) < -10 \<and>
     \<not> 10 < int (wordCount a) - int (wordCount b) \<and>
     \<not> numLess ar (numSub ar (fleschKincaidGrade a) (fleschKincaidGrade b)) (numLit ar (-1)) \<and>
     \<not> numLess ar (numLit ar 1) (numSub ar (fleschKincaidGrade a) (fleschKincaidGrade b)) \<and>
     \<not> numLess ar (numSub ar (avgSentenceLength a) (avgSentenceLength b)) (numLit ar (-3)) \<and>
     \<not> numLess ar (numLit ar 3) (numSub ar (avgSentenceLength a) (avgSentenceLength b)) \<and>
     passiveVoiceCount a = passiveVoiceCount b \<and>
     \<not> int (adverbCount a) - int (adverbCount b) < -2 \<and>
     \<not> 2 < int (adverbCount a) - int (adverbCount b)"
  by (auto simp: observations_def Let_def)

lemma observations_grade_rose:
  "observations binary64Arith tenthsToString
     \<lparr>wordCount = 10, sentenceCount = 1, avgSentenceLength = 10,
      fleschKincaidGrade = binary64 1.2, fleschReadingEase = 90, readingTime = 3,
      passiveVoiceCount = 0, adverbCount = 0, syllableCount = 11\<rparr>
     \<lparr>wordCount = 10, sentenceCount = 1, avgSentenceLength = 10,
      fleschKincaidGrade = binary64 2.2, fleschReadingEase = 90, readingTime = 3,
      passiveVoiceCount = 0, adverbCount = 0, syllableCount = 12\<rparr>
   = [''more complex (grade level rose from 1.2 to 2.2)'']"
  by code_simp

lemma score_grade_rose:
  "calculateImprovementScore binary64Arith
     \<lparr>wordCount = 10, sentenceCount = 1, avgSentenceLength = 10,
      fleschKincaidGrade = binary64 1.2, fleschReadingEase = 90, readingTime = 3,
      passiveVoiceCount = 0, adverbCount = 0, syllableCount = 11\<rparr>
     \<lparr>wordCount = 10, sentenceCount = 1, avgSentenceLength = 10,
      fleschKincaidGrade = binary64 2.2, fleschReadingEase = 90, readingTime = 3,
      passiveVoiceCount = 0, adverbCount = 0, syllableCount = 12\<rparr>
   = - 21"
  by code_simp

lemma metrics_cat:
  "analyzeText ''Cat.'' =
     \<lparr>wordCount = 1, sentenceCount = 1, avgSentenceLength = 1, fleschKincaidGrade = 0,
      fleschReadingEase = 100, readingTime = 0, passiveVoiceCount = 0, adverbCount = 0,
      syllableCount = 1\<rparr>"
  by code_simp

lemma metrics_a_dog:
  "analyzeText ''A dog.'' =
     \<lparr>wordCount = 2, sentenceCount = 1, avgSentenceLength = 2, fleschKincaidGrade = 0,
      fleschReadingEase = 100, readingTime = 1, passiveVoiceCount = 0, adverbCount = 0,
      syllableCount = 2\<rparr>"
  by code_simp

text \<open>
  C5, as the code has it, for all metrics with non-zero word counts. When at least one
  observation threshold fires, the summary is a sentence ending in a full stop, then the
  one of the three closing remarks that the score selects (\<open>score > 5\<close>, \<open>score < -5\<close>,
  otherwise), then the tip exactly when the after text's average sentence length is above
  20. When no threshold fires, the summary is the fixed sentence about similar versions,
  with no closing remark and no tip. The last part says which tests the thresholds are.
\<close>

theorem summary_shape:
  assumes "wordCount b \<noteq> 0" and "wordCount a \<noteq> 0"
  shows "(observations ar str b a \<noteq> [] \<longrightarrow>
            (\<exists>sentence.
               generateSummary ar str b a score =
                 sentence @ ''.''
                 @ (if numLess ar (numLit ar 5) score
                    then '' Overall, this is a stronger version for a wider audience.''
                    else if numLess ar score (numLit ar (-5))
                    then '' Consider simplifying sentences and using more direct language.''
                    else '' The readability is roughly the same as the original.'')
                 @ (if numLess ar (numLit ar 20) (avgSentenceLength a)
                    then '' Tip: Your average sentence is '' @ str (avgSentenceLength a)
                           @ '' words. Consider breaking up sentences longer than 20 words.''
                    else []))) \<and>
         (observations ar str b a = [] \<longrightarrow>
            generateSummary ar str b a score =
              ''The two versions are very similar in readability. The differences are minimal.'') \<and>
         (observations ar str b a = [] \<longleftrightarrow>
            \<not> int (wordCount a) - int (wordCount b) < -10 \<and>
            \<not> 10 < int (wordCount a) - int (wordCount b) \<and>
            \<not> numLess ar (numSub ar (fleschKincaidGrade a) (fleschKincaidGrade b)) (numLit ar (-1)) \<and>
            \<not> numLess ar (numLit ar 1) (numSub ar (fleschKincaidGrade a) (fleschKincaidGrade b)) \<and>
            \<not> numLess ar (numSub ar (avgSentenceLength a) (avgSentenceLength b)) (numLit ar (-3)) \<and>
            \<not> numLess ar (numLit ar 3) (numSub ar (avgSentenceLength a) (avgSentenceLength b)) \<and>
            passiveVoiceCount a = passiveVoiceCount b \<and>
            \<not> int (adverbCount a) - int (adverbCount b) < -2 \<and>
            \<not> 2 < int (adverbCount a) - int (adverbCount b))"
proof (intro conjI impI)
  assume "observations ar str b a \<noteq> []"
  then show "\<exists>sentence.
               generateSummary ar str b a score =
                 sentence @ ''.''
                 @ (if numLess ar (numLit ar 5) score
                    then '' Overall, this is a stronger version for a wider audience.''
                    else if numLess ar score (numLit ar (-5))
                    then '' Consider simplifying sentences and using more direct language.''
                    else '' The readability is roughly the same as the original.'')
                 @ (if numLess ar (numLit ar 20) (avgSentenceLength a)
                    then '' Tip: Your average sentence is '' @ str (avgSentenceLength a)
                           @ '' words. Consider breaking up sentences longer than 20 words.''
                    else [])"
    using assms by (simp add: generateSummary_def Let_def)
next
  assume "observations ar str b a = []"
  then show "generateSummary ar str b a score =
              ''The two versions are very similar in readability. The differences are minimal.''"
    using assms by (simp add: generateSummary_def)
next
  show "observations ar str b a = [] \<longleftrightarrow>
            \<not> int (wordCount a) - int (wordCount b) < -10 \<and>
            \<not> 10 < int (wordCount a) - int (wordCount b) \<and>
            \<not> numLess ar (numSub ar (fleschKincaidGrade a) (fleschKincaidGrade b)) (numLit ar (-1)) \<and>
            \<not> numLess ar (numLit ar 1) (numSub ar (fleschKincaidGrade a) (fleschKincaidGrade b)) \<and>
            \<not> numLess ar (numSub ar (avgSentenceLength a) (avgSentenceLength b)) (numLit ar (-3)) \<and>
            \<not> numLess ar (numLit ar 3) (numSub ar (avgSentenceLength a) (avgSentenceLength b)) \<and>
            passiveVoiceCount a = passiveVoiceCount b \<and>
            \<not> int (adverbCount a) - int (adverbCount b) < -2 \<and>
            \<not> 2 < int (adverbCount a) - int (adverbCount b)"
    by (rule observations_empty_iff)
qed

lemma score_cat_a_dog:
  "calculateImprovementScore binary64Arith (analyzeText ''Cat.'') (analyzeText ''A dog.'') = - 20"
  unfolding metrics_cat metrics_a_dog by code_simp

theorem summary_shape_witness:
  "(\<exists>sentence.
      generateSummary binary64Arith tenthsToString
        \<lparr>wordCount = 10, sentenceCount = 1, avgSentenceLength = 10,
         fleschKincaidGrade = binary64 1.2, fleschReadingEase = 90, readingTime = 3,
         passiveVoiceCount = 0, adverbCount = 0, syllableCount = 11\<rparr>
        \<lparr>wordCount = 10, sentenceCount = 1, avgSentenceLength = 10,
         fleschKincaidGrade = binary64 2.2, fleschReadingEase = 90, readingTime = 3,
         passiveVoiceCount = 0, adverbCount = 0, syllableCount = 12\<rparr>
        (calculateImprovementScore binary64Arith
           \<lparr>wordCount = 10, sentenceCount = 1, avgSentenceLength = 10,
            fleschKincaidGrade = binary64 1.2, fleschReadingEase = 90, readingTime = 3,
            passiveVoiceCount = 0, adverbCount = 0, syllableCount = 11\<rparr>
           \<lparr>wordCount = 10, sentenceCount = 1, avgSentenceLength = 10,
            fleschKincaidGrade = binary64 2.2, fleschReadingEase = 90, readingTime = 3,
            passiveVoiceCount = 0, adverbCount = 0, syllableCount = 12\<rparr>)
      = sentence @ ''.'' @ '' Consider simplifying sentences and using more direct language.'') \<and>
   generateSummary binary64Arith tenthsToString (analyzeText ''Cat.'') (analyzeText ''A dog.'')
     (calculateImprovementScore binary64Arith (analyzeText ''Cat.'') (analyzeText ''A dog.''))
     = ''The two versions are very similar in readability. The differences are minimal.''"
proof -
  let ?b = "\<lparr>wordCount = 10, sentenceCount = 1, avgSentenceLength = 10,
         fleschKincaidGrade = binary64 1.2, fleschReadingEase = 90, readingTime = 3,
         passiveVoiceCount = 0, adverbCount = 0, syllableCount = 11\<rparr> :: real textMetrics"
  let ?a = "\<lparr>wordCount = 10, sentenceCount = 1, avgSentenceLength = 10,
         fleschKincaidGrade = binary64 2.2, fleschReadingEase = 90, readingTime = 3,
         passiveVoiceCount = 0, adverbCount = 0, syllableCount = 12\<rparr> :: real textMetrics"
  have lits: "binary64 5 = 5" "binary64 (- 5) = - 5" "binary64 20 = 20"
    by code_simp+
  have fires: "observations binary64Arith tenthsToString ?b ?a \<noteq> []"
    unfolding observations_grade_rose by simp
  have "wordCount ?b \<noteq> 0" "wordCount ?a \<noteq> 0" by simp_all
  from summary_shape[OF this, of binary64Arith tenthsToString "- 21"] fires
  have first: "\<exists>sentence. generateSummary binary64Arith tenthsToString ?b ?a (- 21)
      = sentence @ ''.'' @ '' Consider simplifying sentences and using more direct language.''"
    by (simp add: binary64Arith_def lits)
  have none: "observations binary64Arith tenthsToString (analyzeText ''Cat.'') (analyzeText ''A dog.'') = []"
    unfolding metrics_cat metrics_a_dog by code_simp
  have "wordCount (analyzeText ''Cat.'') \<noteq> 0" "wordCount (analyzeText ''A dog.'') \<noteq> 0"
    by (simp_all add: metrics_cat metrics_a_dog)
  from summary_shape[OF this, of binary64Arith tenthsToString "- 20"] none
  have second: "generateSummary binary64Arith tenthsToString (analyzeText ''Cat.'') (analyzeText ''A dog.'') (- 20)
     = ''The two versions are very similar in readability. The differences are minimal.''"
    by simp
  show ?thesis unfolding score_grade_rose score_cat_a_dog using first second by (rule conjI)
qed

theorem summary_similar_counterexample:
  "wordCount (analyzeText ''Cat.'') = 1 \<and> wordCount (analyzeText ''A dog.'') = 2 \<and>
   generateSummary binary64Arith tenthsToString (analyzeText ''Cat.'') (analyzeText ''A dog.'')
      (calculateImprovementScore binary64Arith (analyzeText ''Cat.'') (analyzeText ''A dog.''))
   = ''The two versions are very similar in readability. The differences are minimal.'' \<and>
   \<not> endsWith ''The two versions are very similar in readability. The differences are minimal.''
       '' The readability is roughly the same as the original.'' \<and>
   \<not> endsWith ''The two versions are very similar in readability. The differences are minimal.''
       '' Overall, this is a stronger version for a wider audience.'' \<and>
   \<not> endsWith ''The two versions are very similar in readability. The differences are minimal.''
       '' Consider simplifying sentences and using more direct language.''"
  unfolding metrics_cat metrics_a_dog by code_simp

section \<open>Properties of the text metrics\<close>

lemma removeAllFrom_Class: "removeAllFrom (Class P) prev s = filter (\<lambda>c. \<not> P c) s"
proof (induction s arbitrary: prev)
  case Nil
  then show ?case by (simp add: removeAllFrom.simps)
next
  case (Cons c cs)
  then show ?case by (subst removeAllFrom.simps) simp
qed

lemma isLower_toLowerChar: "isLower (toLowerChar c) \<longleftrightarrow> isLetter c"
  by (auto simp: toLowerChar_def isLower_def isUpper_def isLetter_def)

lemma isUpper_toLowerChar: "\<not> isUpper (toLowerChar c)"
  by (auto simp: toLowerChar_def isLower_def isUpper_def isLetter_def)

lemma isLetter_toLowerChar: "isLetter (toLowerChar c) \<longleftrightarrow> isLetter c"
  using isLower_toLowerChar[of c] isUpper_toLowerChar[of c] by (auto simp: isLetter_def)

lemma stripped_eq: "filter isLower (toLowerCase w) = filter isLetter (toLowerCase w)"
  by (induction w) (simp_all add: toLowerCase_def isLower_toLowerChar isLetter_toLowerChar)

lemma stripped_empty: "filter isLetter (toLowerCase w) = [] \<longleftrightarrow> \<not> (\<exists>c\<in>set w. isLetter c)"
  by (induction w) (simp_all add: toLowerCase_def isLetter_toLowerChar)

lemma countRuns_True: "countRuns P True s = countRuns P False (dropWhile P s)"
  by (induction s) simp_all

lemma matchAllFrom_hit:
  "matchLens r prev s = k # ks \<Longrightarrow> 0 < k \<Longrightarrow> s \<noteq> [] \<Longrightarrow>
   matchAllFrom r prev s = take k s # matchAllFrom r (prevAfter prev s k) (drop k s)"
  by (subst matchAllFrom.simps) simp

lemma matchAllFrom_miss:
  "matchLens r prev (c # cs) = [] \<Longrightarrow> matchAllFrom r prev (c # cs) = matchAllFrom r (Some c) cs"
  by (subst matchAllFrom.simps) simp

lemma matchAllFrom_end:
  "matchLens r prev [] = [] \<Longrightarrow> matchAllFrom r prev [] = []"
  by (subst matchAllFrom.simps) simp

lemma matchLens_Plus:
  "matchLens (Plus P) prev s =
     (if takeWhile P s = [] then []
      else length (takeWhile P s) # rev [1..<length (takeWhile P s)])"
proof -
  define n where "n = length (takeWhile P s)"
  have "rev [1..<Suc n] = (if n = 0 then [] else n # rev [1..<n])"
    by (cases n) simp_all
  then show ?thesis by (simp add: n_def del: upt_Suc)
qed

lemma matchAllFrom_Plus_length:
  "length (matchAllFrom (Plus P) prev s) = countRuns P False s"
proof (induction s arbitrary: prev rule: length_induct)
  case (1 s)
  show ?case
  proof (cases s)
    case Nil
    then show ?thesis by (simp add: matchAllFrom_end)
  next
    case (Cons c cs)
    show ?thesis
    proof (cases "P c")
      case False
      then have "matchAllFrom (Plus P) prev s = matchAllFrom (Plus P) (Some c) cs"
        unfolding Cons by (intro matchAllFrom_miss) (simp add: matchLens_Plus)
      then show ?thesis using "1.IH" Cons False by simp
    next
      case True
      let ?n = "length (takeWhile P s)"
      have tw: "takeWhile P s \<noteq> []" using True Cons by simp
      then have n: "0 < ?n" by simp
      have d: "drop ?n s = dropWhile P s" by (simp add: dropWhile_eq_drop)
      have "matchLens (Plus P) prev s = ?n # rev [1..<?n]"
        using tw by (simp add: matchLens_Plus del: matchLens.simps)
      from matchAllFrom_hit[OF this n] Cons
      have "matchAllFrom (Plus P) prev s
              = take ?n s # matchAllFrom (Plus P) (prevAfter prev s ?n) (drop ?n s)"
        by simp
      moreover have "length (dropWhile P s) < length s"
        using True Cons by (simp add: length_dropWhile_le le_imp_less_Suc)
      ultimately have "length (matchAllFrom (Plus P) prev s) = Suc (countRuns P False (dropWhile P s))"
        using "1.IH" d by simp
      then show ?thesis using True Cons by (simp add: countRuns_True)
    qed
  qed
qed

lemma matchAll_Plus_empty: "matchAll (Plus P) s = [] \<longleftrightarrow> countRuns P False s = 0"
  using matchAllFrom_Plus_length[of P None s] by (auto simp: matchAll_def)

text \<open>
  C6, as the code has it. For a word with at least one ASCII letter the estimate of
  \<open>countSyllables\<close> is the one the specification describes; for a word without a letter
  (the empty word, \<open>-\<close>, \<open>'\<close>, \<open>42\<close>) the code returns 0, not 1.
\<close>

theorem countSyllables_spec:
  "countSyllables w = (if \<exists>c\<in>set w. isLetter c then syllableSpec w else 0)"
proof -
  let ?s = "filter isLetter (toLowerCase w)"
  have strip: "removeAll (Class (\<lambda>c. \<not> isLower c)) (toLowerCase w) = ?s"
    by (simp add: removeAll_def removeAllFrom_Class stripped_eq)
  have len: "length (matchAll (Plus isVowel) ?s) = countRuns isVowel False ?s"
    by (simp add: matchAll_def matchAllFrom_Plus_length)
  show ?thesis
  proof (cases "\<exists>c\<in>set w. isLetter c")
    case False
    then have "?s = []" using stripped_empty[of w] by simp
    then show ?thesis using False by (simp add: countSyllables_def strip)
  next
    case True
    then have ne: "?s \<noteq> []" using stripped_empty[of w] by simp
    show ?thesis
    proof (cases "countRuns isVowel False ?s = 0")
      case z: True
      then have "matchAll (Plus isVowel) ?s = []" by (simp add: matchAll_Plus_empty)
      then show ?thesis using True ne z
        by (simp add: countSyllables_def syllableSpec_def strip Let_def)
    next
      case nz: False
      then have "matchAll (Plus isVowel) ?s \<noteq> []" by (simp add: matchAll_Plus_empty)
      then show ?thesis using True ne
        by (simp add: countSyllables_def syllableSpec_def strip Let_def len)
    qed
  qed
qed


theorem countSyllables_spec_witness:
  "(\<exists>c\<in>set ''noted''. isLetter c) \<and> countSyllables ''noted'' = syllableSpec ''noted'' \<and>
   syllableSpec ''noted'' = 2"
proof -
  have l: "\<exists>c\<in>set ''noted''. isLetter c" by code_simp
  have v: "syllableSpec ''noted'' = 2" by code_simp
  show ?thesis using countSyllables_spec[of "''noted''"] l v by simp
qed

theorem countSyllables_no_letter_counterexample:
  "countSyllables ''-'' = 0 \<and> syllableSpec ''-'' = 1"
  by code_simp

lemma trim_all_space:
  assumes "\<forall>c\<in>set s. isSpace c"
  shows "trim s = []"
proof -
  have d: "dropWhile isSpace s = []" using assms by (simp add: dropWhile_eq_Nil_conv)
  show ?thesis unfolding trim_def d by simp
qed

lemma wordTokens_all_space:
  assumes sp: "\<forall>c\<in>set s. isSpace c"
  shows "wordTokens s = []"
proof (cases "s = []")
  case True
  then show ?thesis by (simp add: wordTokens_def tokenize_def)
next
  case False
  let ?r = "Alt (Plus (\<lambda>c. \<not> isSpace c)) (Plus isSpace)"
  have t1: "takeWhile (\<lambda>c. \<not> isSpace c) s = []"
    using sp False by (cases s) simp_all
  have t2: "takeWhile isSpace s = s"
    using sp by (simp add: takeWhile_eq_all_conv)
  have "matchLens ?r None s = length s # rev [1..<length s]"
    using False by (simp add: matchLens_Plus t1 t2 del: matchLens.simps(6))
  from matchAllFrom_hit[OF this] False
  have "matchAllFrom ?r None s = s # matchAllFrom ?r (prevAfter None s (length s)) []"
    by simp
  moreover have "matchAllFrom ?r p [] = []" for p
    by (rule matchAllFrom_end) simp
  ultimately have "tokenize s = [s]"
    using False by (simp add: tokenize_def matchAll_def)
  then show ?thesis using trim_all_space[OF sp] by (simp add: wordTokens_def)
qed

text \<open>
  C8. For texts \<open>s\<close> and \<open>t\<close> that are empty or hold whitespace only, \<open>analyzeText s\<close>
  is the all-zero metrics object, \<open>computeDiff s t\<close> is the empty sequence, and so are
  both views of it.
\<close>

theorem blank_input_degrades:
  assumes "\<forall>c\<in>set s. isSpace c" "\<forall>c\<in>set t. isSpace c"
  shows "analyzeText s =
           \<lparr>wordCount = 0, sentenceCount = 0, avgSentenceLength = 0, fleschKincaidGrade = 0,
            fleschReadingEase = 0, readingTime = 0, passiveVoiceCount = 0, adverbCount = 0,
            syllableCount = 0\<rparr> \<and>
         computeDiff s t = [] \<and>
         getBeforeView (computeDiff s t) = [] \<and> getAfterView (computeDiff s t) = []"
proof -
  have "computeDiff s t = []"
    using assms
    by (simp add: computeDiff_def wordTokens_all_space backtrack_def backtrackLoop_stop Let_def)
  then show ?thesis
    using assms(1) by (simp add: analyzeText_def trim_all_space getBeforeView_def getAfterView_def)
qed

theorem blank_input_degrades_witness:
  "wordCount (analyzeText [CHR '' '', CHR 0x0A]) = 0 \<and>
   syllableCount (analyzeText [CHR '' '', CHR 0x0A]) = 0 \<and>
   computeDiff [CHR '' '', CHR 0x0A] [] = [] \<and>
   getBeforeView (computeDiff [CHR '' '', CHR 0x0A] []) = [] \<and>
   getAfterView (computeDiff [CHR '' '', CHR 0x0A] []) = []"
proof -
  have h: "\<forall>c\<in>set [CHR '' '', CHR 0x0A]. isSpace c" "\<forall>c\<in>set ([] :: string). isSpace c"
    by (simp_all add: isSpace_def)
  from blank_input_degrades[OF h] show ?thesis
    by (simp add: getBeforeView_def getAfterView_def)
qed

lemma foldl_add_sum: "foldl (\<lambda>sum w. sum + f w) (n::nat) ws = n + sum_list (map f ws)"
  by (induction ws arbitrary: n) simp_all

lemma countSyllables_pos:
  assumes "\<exists>c\<in>set w. isLetter c"
  shows "1 \<le> countSyllables w"
proof -
  have "removeAll (Class (\<lambda>c. \<not> isLower c)) (toLowerCase w) \<noteq> []"
    using assms stripped_empty[of w] by (simp add: removeAll_def removeAllFrom_Class stripped_eq)
  then show ?thesis by (simp add: countSyllables_def Let_def)
qed

lemma length_le_sum_list:
  "\<forall>x\<in>set xs. (1::nat) \<le> f x \<Longrightarrow> length xs \<le> sum_list (map f xs)"
proof (induction xs)
  case Nil
  then show ?case by simp
next
  case (Cons x xs)
  then have "1 \<le> f x" "length xs \<le> sum_list (map f xs)" by simp_all
  then show ?case by simp
qed

text \<open>
  C10, as the code has it. When every word that the word pattern extracts holds a letter,
  \<open>syllableCount \<ge> wordCount\<close>. The pattern also extracts words without a letter:
  in \<open>1-1\<close> the hyphen stands between two word boundaries, is counted as a word and
  adds 0 syllables.
\<close>

theorem syllables_cover_words:
  assumes "\<forall>w\<in>set (splitWords text). \<exists>c\<in>set w. isLetter c"
  shows "wordCount (analyzeText text) \<le> syllableCount (analyzeText text)"
proof -
  have "length (splitWords text) \<le> sum_list (map countSyllables (splitWords text))"
    using assms countSyllables_pos by (intro length_le_sum_list) blast
  then show ?thesis by (simp add: analyzeText_def Let_def foldl_add_sum)
qed

theorem syllables_cover_words_witness:
  "splitWords ''Cat sat.'' = [''Cat'', ''sat''] \<and>
   wordCount (analyzeText ''Cat sat.'') \<le> syllableCount (analyzeText ''Cat sat.'')"
proof -
  have w: "splitWords ''Cat sat.'' = [''Cat'', ''sat'']" by code_simp
  have "\<forall>w\<in>set (splitWords ''Cat sat.''). \<exists>c\<in>set w. isLetter c"
    unfolding w by code_simp
  from syllables_cover_words[OF this] w show ?thesis by simp
qed

theorem syllables_below_words_counterexample:
  "splitWords ''1-1'' = [''-''] \<and>
   wordCount (analyzeText ''1-1'') = 1 \<and> syllableCount (analyzeText ''1-1'') = 0"
  by code_simp

lemma matchLens_Seq_nonempty:
  "matchLens (Seq a b) prev s \<noteq> [] \<Longrightarrow>
   \<exists>k\<in>set (matchLens a prev s). matchLens b (prevAfter prev s k) (drop k s) \<noteq> []"
  by auto

lemma matchLens_WordBoundary_in:
  "k \<in> set (matchLens WordBoundary prev s) \<Longrightarrow> k = 0 \<and> isWordAt prev \<noteq> isWordAt (nextChar s)"
  by (simp split: if_splits)

lemma matchLens_alternatives_in:
  "k \<in> set (matchLens (alternatives r rs) prev s) \<Longrightarrow> \<exists>x\<in>set (r # rs). k \<in> set (matchLens x prev s)"
  by (induction rs arbitrary: r) auto

lemma prevAfter_zero: "prevAfter prev s 0 = prev"
  by (simp add: prevAfter_def)

lemma prevAfter_pos: "0 < n \<Longrightarrow> n \<le> length s \<Longrightarrow> prevAfter prev s n = Some (s ! (n - 1))"
  by (simp add: prevAfter_def take_last_nth)

lemma isSpace_not_word: "isSpace c \<Longrightarrow> \<not> isWordChar c \<and> \<not> isWordPatternChar c"
  by (auto simp: isSpace_def isWordChar_def isWordPatternChar_def isLetter_def isLower_def
      isUpper_def isDigit_def)

lemma isLetter_word: "isLetter c \<Longrightarrow> isWordChar c \<and> isWordPatternChar c"
  by (simp add: isWordChar_def isWordPatternChar_def)

lemma isLower_toLowerChar_id: "isLower c \<Longrightarrow> toLowerChar c = c"
  by (auto simp: toLowerChar_def isLower_def isUpper_def)

lemma toLowerChar_space: "toLowerChar c = CHR '' '' \<Longrightarrow> c = CHR '' ''"
proof (cases "isUpper c")
  case True
  assume "toLowerChar c = CHR '' ''"
  moreover have "isLower (toLowerChar c)" using True by (simp add: isLower_toLowerChar isLetter_def)
  ultimately show ?thesis by (simp add: isLower_def)
next
  case False
  assume "toLowerChar c = CHR '' ''"
  then show ?thesis using False by (simp add: toLowerChar_def)
qed

lemma wordPattern_matches:
  assumes n: "0 < n" "n < length s"
    and letters: "\<And>i. i < n \<Longrightarrow> isLetter (s ! i)"
    and sp: "isSpace (s ! n)"
    and bd: "isWordAt prev \<noteq> isWordAt (nextChar s)"
  shows "matchLens wordPattern prev s \<noteq> []"
proof -
  have tw: "takeWhile isWordPatternChar s = take n s"
    using letters sp by (intro takeWhile_eq_take_P_nth) (simp_all add: isLetter_word isSpace_not_word)
  then have len: "length (takeWhile isWordPatternChar s) = n" using n by simp
  have ne: "takeWhile isWordPatternChar s \<noteq> []" using len n by auto
  have plus: "matchLens (Plus isWordPatternChar) prev s = n # rev [1..<n]"
    using ne len by (simp add: matchLens_Plus del: matchLens.simps)
  have "isWordAt (prevAfter prev s n)"
    using n letters[of "n - 1"] by (simp add: prevAfter_pos isWordAt_def isLetter_word)
  moreover have "nextChar (drop n s) = Some (s ! n)"
    using n by (simp add: nextChar_def Cons_nth_drop_Suc[symmetric])
  then have "\<not> isWordAt (nextChar (drop n s))"
    using sp by (simp add: isWordAt_def isSpace_not_word)
  ultimately have wb: "matchLens WordBoundary (prevAfter prev s n) (drop n s) = [0]"
    by simp
  have "matchLens (Seq (Plus isWordPatternChar) WordBoundary) prev s \<noteq> []"
    unfolding matchLens.simps(4) plus using wb by simp
  then show ?thesis
    using bd by (simp add: wordPattern_def prevAfter_zero del: matchLens.simps(6))
qed

lemma literal_first_word:
  assumes lm: "litMatches True l s"
    and u: "takeWhile isLower l \<noteq> []"
    and l': "dropWhile isLower l = [] \<or> hd (dropWhile isLower l) = CHR '' ''"
    and nx: "drop (length l) s \<noteq> []" "isSpace (hd (drop (length l) s))"
  shows "\<exists>n. 0 < n \<and> n < length s \<and> (\<forall>i<n. isLetter (s ! i)) \<and> isSpace (s ! n)"
proof -
  define n where "n = length (takeWhile isLower l)"
  have ll: "length l \<le> length s" and eq: "map toLowerChar (take (length l) s) = map toLowerChar l"
    using lm by (simp_all add: litMatches_def toLowerCase_def)
  have nl: "n \<le> length l" by (simp add: n_def length_takeWhile_le)
  have ls: "length l < length s" using nx(1) by simp
  have nth: "toLowerChar (s ! i) = toLowerChar (l ! i)" if "i < length l" for i
  proof -
    have "map toLowerChar (take (length l) s) ! i = map toLowerChar l ! i" using eq by simp
    then show ?thesis using that ll by simp
  qed
  have "isLetter (s ! i)" if "i < n" for i
  proof -
    have "l ! i = takeWhile isLower l ! i" using that by (simp add: n_def takeWhile_nth)
    moreover have "takeWhile isLower l ! i \<in> set (takeWhile isLower l)"
      using that by (simp add: n_def)
    ultimately have "isLower (l ! i)" using set_takeWhileD by metis
    then have "isLower (toLowerChar (s ! i))"
      using nth[of i] that nl by (simp add: isLower_toLowerChar_id)
    then show ?thesis by (simp add: isLower_toLowerChar)
  qed
  moreover have "isSpace (s ! n)"
  proof (cases "dropWhile isLower l = []")
    case True
    then have "takeWhile isLower l = l"
      by (metis append_Nil2 takeWhile_dropWhile_id)
    then have "n = length l"
      unfolding n_def by (rule arg_cong[where f = length])
    then show ?thesis using nx ls by (simp add: hd_drop_conv_nth)
  next
    case False
    then have "hd (dropWhile isLower l) = CHR '' ''" using l' by blast
    moreover have nlt: "n < length l"
    proof -
      have "length (takeWhile isLower l @ dropWhile isLower l) = length l" by simp
      then have "n + length (dropWhile isLower l) = length l"
        unfolding length_append n_def .
      moreover have "0 < length (dropWhile isLower l)" using False by blast
      ultimately show ?thesis by linarith
    qed
    moreover have "hd (dropWhile isLower l) = l ! n"
      using nlt unfolding dropWhile_eq_drop n_def[symmetric] by (rule hd_drop_conv_nth)
    ultimately have "toLowerChar (s ! n) = CHR '' ''"
      using nth[of n] by (simp add: toLowerChar_def isUpper_def)
    then show ?thesis by (simp add: toLowerChar_space isSpace_def)
  qed
  moreover have "0 < n" using u by (simp add: n_def)
  moreover have "n < length s" using nl ls by simp
  ultimately show ?thesis by blast
qed

lemma auxiliaries_shape:
  "\<forall>l\<in>set [''is'', ''was'', ''were'', ''been'', ''being'', ''are'', ''am'', ''has been'',
              ''have been'', ''had been'', ''will be'', ''shall be'', ''could be'',
              ''would be'', ''might be'', ''must be''].
     takeWhile isLower l \<noteq> [] \<and>
     (dropWhile isLower l = [] \<or> hd (dropWhile isLower l) = CHR '' '')"
  by (simp add: isLower_def)

lemma matchLens_alternatives_Lit:
  assumes "k \<in> set (matchLens (alternatives (Lit ci l0) (map (Lit ci) ls)) prev s)"
  shows "\<exists>l\<in>set (l0 # ls). litMatches ci l s \<and> k = length l"
proof -
  from matchLens_alternatives_in[OF assms]
  obtain x where "x \<in> set (Lit ci l0 # map (Lit ci) ls)" and kx: "k \<in> set (matchLens x prev s)"
    by blast
  then obtain l where "l \<in> set (l0 # ls)" and "x = Lit ci l" by auto
  then show ?thesis using kx by (auto split: if_splits)
qed

lemma passive_needs_word:
  assumes "matchLens passivePattern prev s \<noteq> []"
  shows "matchLens wordPattern prev s \<noteq> []"
proof -
  define aux where "aux = [''is'', ''was'', ''were'', ''been'', ''being'', ''are'', ''am'', ''has been'',
              ''have been'', ''had been'', ''will be'', ''shall be'', ''could be'',
              ''would be'', ''might be'', ''must be'']"
  define alts where "alts = alternatives (Lit True ''is'')
               (map (Lit True)
                  [''was'', ''were'', ''been'', ''being'', ''are'', ''am'', ''has been'',
                   ''have been'', ''had been'', ''will be'', ''shall be'', ''could be'',
                   ''would be'', ''might be'', ''must be''])"
  define tail where "tail = Seq (Alt (Seq (Plus isWordChar) (Lit True ''ed''))
                       (Seq (Plus isWordChar) (Lit True ''en''))) WordBoundary"
  have pp: "passivePattern = Seq WordBoundary (Seq alts (Seq (Plus isSpace) tail))"
    unfolding passivePattern_def alts_def tail_def by (rule refl)
  from assms obtain k0 where k0: "k0 \<in> set (matchLens WordBoundary prev s)"
    and r1: "matchLens (Seq alts (Seq (Plus isSpace) tail)) (prevAfter prev s k0) (drop k0 s) \<noteq> []"
    unfolding pp using matchLens_Seq_nonempty by blast
  from k0 have z: "k0 = 0" and bd: "isWordAt prev \<noteq> isWordAt (nextChar s)"
    using matchLens_WordBoundary_in by blast+
  have "matchLens (Seq alts (Seq (Plus isSpace) tail)) prev s \<noteq> []"
    using r1 unfolding z prevAfter_zero drop_0 .
  then obtain k where k: "k \<in> set (matchLens alts prev s)"
    and r2: "matchLens (Seq (Plus isSpace) tail) (prevAfter prev s k) (drop k s) \<noteq> []"
    using matchLens_Seq_nonempty by blast
  from r2 obtain k2 where "k2 \<in> set (matchLens (Plus isSpace) (prevAfter prev s k) (drop k s))"
    using matchLens_Seq_nonempty by blast
  then have tw: "takeWhile isSpace (drop k s) \<noteq> []"
    unfolding matchLens_Plus by (cases "takeWhile isSpace (drop k s) = []") simp_all
  then have nx: "drop k s \<noteq> []" "isSpace (hd (drop k s))"
    by (cases "drop k s"; simp split: if_splits)+
  from k obtain l where l: "l \<in> set aux" and lm: "litMatches True l s" and kl: "k = length l"
    unfolding alts_def aux_def using matchLens_alternatives_Lit by blast
  have sh: "takeWhile isLower l \<noteq> [] \<and>
            (dropWhile isLower l = [] \<or> hd (dropWhile isLower l) = CHR '' '')"
    using l unfolding aux_def by (rule bspec[OF auxiliaries_shape])
  from literal_first_word[OF lm conjunct1[OF sh] conjunct2[OF sh]] nx kl
  obtain n where "0 < n" "n < length s" "\<forall>i<n. isLetter (s ! i)" "isSpace (s ! n)"
    by blast
  then show ?thesis using bd by (intro wordPattern_matches[of n]) simp_all
qed

lemma matchAllFrom_empty_here:
  "matchAllFrom r prev s = [] \<Longrightarrow> matchLens r prev s = []"
  by (subst (asm) matchAllFrom.simps) (simp split: list.splits)

lemma matchAllFrom_empty_next:
  "matchAllFrom r prev (c # cs) = [] \<Longrightarrow> matchAllFrom r (Some c) cs = []"
  by (subst (asm) matchAllFrom.simps) (simp split: list.splits)

lemma no_word_no_passive:
  "matchAllFrom wordPattern prev s = [] \<Longrightarrow> matchAllFrom passivePattern prev s = []"
proof (induction s arbitrary: prev)
  case Nil
  then have "matchLens passivePattern prev [] = []"
    using matchAllFrom_empty_here passive_needs_word by blast
  then show ?case by (rule matchAllFrom_end)
next
  case (Cons c cs)
  then have "matchLens passivePattern prev (c # cs) = []"
    using matchAllFrom_empty_here passive_needs_word by blast
  then have "matchAllFrom passivePattern prev (c # cs) = matchAllFrom passivePattern (Some c) cs"
    by (rule matchAllFrom_miss)
  then show ?case using Cons matchAllFrom_empty_next by simp
qed

text \<open>
  C9, as the code has it. For a text with a non-whitespace character and no word matched
  by the word pattern, \<open>analyzeText\<close> returns word count 0, every other field 0, and
  as sentence count the number of non-blank fragments between the runs of \<open>.\<close>, \<open>!\<close>
  and \<open>?\<close>, floored at 1. That number is 1 for \<open>...\<close> and \<open>123\<close>, and 2 for \<open>1. 2\<close>.
\<close>

theorem no_words_metrics:
  assumes "trim text \<noteq> []" "splitWords text = []"
  shows "analyzeText text =
           \<lparr>wordCount = 0, sentenceCount = max (length (splitSentences text)) 1,
            avgSentenceLength = 0, fleschKincaidGrade = 0, fleschReadingEase = 0,
            readingTime = 0, passiveVoiceCount = 0, adverbCount = 0, syllableCount = 0\<rparr>"
proof -
  have ne: "text \<noteq> []" using assms(1) by (auto simp: trim_def)
  have "matchAllFrom wordPattern None text = []"
    using assms by (simp add: splitWords_def matchAll_def)
  then have p: "countPassiveVoice text = 0"
    by (simp add: countPassiveVoice_def matchAll_def no_word_no_passive)
  have a: "countAdverbs text = 0" using assms(2) by (simp add: countAdverbs_def)
  have hundred: "binary64 100 = 100" by code_simp
  show ?thesis
    using assms ne
    by (simp add: analyzeText_def Let_def p a jsRound_def binary64Arith_def binary64_zero hundred)
qed

theorem no_words_metrics_witness:
  "trim ''...'' \<noteq> [] \<and> splitWords ''...'' = [] \<and>
   analyzeText ''...'' =
           \<lparr>wordCount = 0, sentenceCount = 1,
            avgSentenceLength = 0, fleschKincaidGrade = 0, fleschReadingEase = 0,
            readingTime = 0, passiveVoiceCount = 0, adverbCount = 0, syllableCount = 0\<rparr>"
proof -
  have t: "trim ''...'' \<noteq> []" by code_simp
  have w: "splitWords ''...'' = []" by code_simp
  have s: "splitSentences ''...'' = []" by code_simp
  from no_words_metrics[OF t w] t w s show ?thesis by simp
qed

theorem no_words_two_sentences_counterexample:
  "trim ''1. 2'' \<noteq> [] \<and> splitWords ''1. 2'' = [] \<and> sentenceCount (analyzeText ''1. 2'') = 2"
  by code_simp

section \<open>The model on the examples of the specification\<close>

lemma example_diff_empty: "computeDiff [] [] = []"
  by code_simp

lemma example_diff_deletes:
  "computeDiff ''a b'' [] = [\<lparr>type = Delete, val = ''a''\<rparr>, \<lparr>type = Delete, val = ''b''\<rparr>]"
  by code_simp

lemma example_diff_inserts:
  "computeDiff [] ''a b'' = [\<lparr>type = Insert, val = ''a''\<rparr>, \<lparr>type = Insert, val = ''b''\<rparr>]"
  by code_simp

lemma example_diff_replace:
  "computeDiff ''the cat sat'' ''the dog sat'' =
     [\<lparr>type = Equal, val = ''the''\<rparr>, \<lparr>type = Delete, val = ''cat''\<rparr>,
      \<lparr>type = Insert, val = ''dog''\<rparr>, \<lparr>type = Equal, val = ''sat''\<rparr>]"
  by code_simp

lemma example_metrics_sixteen:
  "fleschKincaidGrade (analyzeText ''a a a a a a a a a a a a a a a a'') = binary64 2.4"
  by code_simp

lemma example_metrics_digits:
  "analyzeText ''123'' =
     \<lparr>wordCount = 0, sentenceCount = 1, avgSentenceLength = 0, fleschKincaidGrade = 0,
      fleschReadingEase = 0, readingTime = 0, passiveVoiceCount = 0, adverbCount = 0,
      syllableCount = 0\<rparr>"
  by code_simp

lemma example_passive: "countPassiveVoice ''The ball was kicked. It is Taken.'' = 2"
  by code_simp

end
